theory Spec2Isabelle
  imports Main "HOL-Library.Word" "HOL-Library.List_Lexorder" "HOL-Library.Multiset"
begin

section \<open>JavaScript values used by the client\<close>

text \<open>
  A JavaScript string is a sequence of UTF-16 code units, a \<open>Buffer\<close> a sequence of
  bytes. \<open>js\<close> writes an ASCII literal as such a string. List_Lexorder orders strings
  as JavaScript's \<open><\<close> does: lexicographically by code unit, a proper prefix first.
\<close>

type_synonym jschar = "16 word"
type_synonym jsstring = "jschar list"
type_synonym byte = "8 word"
type_synonym Buffer = "byte list"

definition js :: "string \<Rightarrow> jsstring" where
  "js s = map (\<lambda>c. of_nat (of_char c)) s"

text \<open>
  \<open>String.prototype.toLowerCase\<close>, written out for the code units up to 0xFF (the
  ASCII capitals and the Latin-1 capitals other than the multiplication sign); other code
  units are left alone here. The client lower-cases header names after they passed the
  token check (ASCII only) and joined header values (Latin-1 only), where this is exact.
\<close>

definition toLowerCase_unit :: "jschar \<Rightarrow> jschar" where
  "toLowerCase_unit c =
     (if (0x41 \<le> c \<and> c \<le> 0x5A) \<or> (0xC0 \<le> c \<and> c \<le> 0xDE \<and> c \<noteq> 0xD7) then c + 0x20 else c)"

definition toLowerCase :: "jsstring \<Rightarrow> jsstring" where
  "toLowerCase s = map toLowerCase_unit s"

text \<open>\<open>Array.prototype.join\<close> with a separator.\<close>

fun join :: "jsstring list \<Rightarrow> jsstring \<Rightarrow> jsstring" where
  "join [] sep = []"
| "join [v] sep = v"
| "join (v # w # vs) sep = v @ sep @ join (w # vs) sep"

text \<open>
  \<open>new Set(xs).keys()\<close>: the elements in insertion order, each kept where it first
  occurs.
\<close>

definition Set_add :: "'a list \<Rightarrow> 'a \<Rightarrow> 'a list" where
  "Set_add seen x = (if x \<in> set seen then seen else seen @ [x])"

definition Set_keys :: "'a list \<Rightarrow> 'a list" where
  "Set_keys xs = foldl Set_add [] xs"

text \<open>Everything the modelled code throws.\<close>

datatype error =
    ERR_INVALID_HTTP_TOKEN jsstring  \<comment> \<open>TypeError "Header name must be a valid HTTP token"\<close>
  | ERR_INVALID_CHAR jsstring        \<comment> \<open>TypeError "Invalid character in header content"\<close>
  | ERR_PAIR_NOT_TUPLE               \<comment> \<open>TypeError "Each header pair must be a name/value tuple"\<close>
  | ERR_OUT_OF_RANGE                 \<comment> \<open>RangeError of a typed array\<close>
  | ERR_INVALID_URL                  \<comment> \<open>TypeError of \<open>new URL\<close>\<close>

section \<open>Headers\<close>

subsection \<open>Validation\<close>

text \<open>
  The character class of \<open>/^[\^`\-\w!#$%&"*+.|~]+$/\<close>: caret, backtick, hyphen, a word
  character, or one of \<open>! # $ % & " * + . | ~\<close>.
\<close>

definition word_char :: "jschar \<Rightarrow> bool" where
  "word_char c =
     ((0x30 \<le> c \<and> c \<le> 0x39) \<or> (0x41 \<le> c \<and> c \<le> 0x5A) \<or> c = 0x5F \<or> (0x61 \<le> c \<and> c \<le> 0x7A))"

definition token_char :: "jschar \<Rightarrow> bool" where
  "token_char c =
     (c = 0x5E \<or> c = 0x60 \<or> c = 0x2D \<or> word_char c \<or>
      c = 0x21 \<or> c = 0x23 \<or> c = 0x24 \<or> c = 0x25 \<or> c = 0x26 \<or> c = 0x22 \<or>
      c = 0x2A \<or> c = 0x2B \<or> c = 0x2E \<or> c = 0x7C \<or> c = 0x7E)"

definition http_token :: "jsstring \<Rightarrow> bool" where
  "http_token name = (name \<noteq> [] \<and> list_all token_char name)"

text \<open>
  A header value may hold the tab, 0x20 to 0x7E and 0x80 to 0xFF: the regular expression
  of \<open>validateHeaderValue\<close> looks for a code unit outside these.
\<close>

definition value_char :: "jschar \<Rightarrow> bool" where
  "value_char c = (c = 0x09 \<or> (0x20 \<le> c \<and> c \<le> 0x7E) \<or> (0x80 \<le> c \<and> c \<le> 0xFF))"

definition validateHeaderName :: "jsstring \<Rightarrow> error + unit" where
  "validateHeaderName name =
     (if \<not> http_token name then Inl (ERR_INVALID_HTTP_TOKEN name) else Inr ())"

definition validateHeaderValue :: "jsstring \<Rightarrow> jsstring \<Rightarrow> error + unit" where
  "validateHeaderValue name v =
     (if list_ex (\<lambda>c. \<not> value_char c) v then Inl (ERR_INVALID_CHAR name) else Inr ())"

text \<open>Both checks in the order every caller runs them: the name first.\<close>

definition validate :: "jsstring \<Rightarrow> jsstring \<Rightarrow> error + unit" where
  "validate name v =
     (case validateHeaderName name of
        Inl e \<Rightarrow> Inl e
      | Inr _ \<Rightarrow> validateHeaderValue name v)"

subsection \<open>The inherited URLSearchParams\<close>

text \<open>
  \<open>Headers\<close> extends \<open>URLSearchParams\<close>: an ordered list of name/value pairs. These
  are the inherited methods the proxy calls once the name is checked and lower-cased
  (on a platform where they accept the proxy as their receiver). \<open>sort\<close> is stable
  and compares the names by code units.
\<close>

type_synonym Headers = "(jsstring \<times> jsstring) list"

definition usp_append :: "Headers \<Rightarrow> jsstring \<Rightarrow> jsstring \<Rightarrow> Headers" where
  "usp_append h n v = h @ [(n, v)]"

fun usp_set_first :: "Headers \<Rightarrow> jsstring \<Rightarrow> jsstring \<Rightarrow> Headers" where
  "usp_set_first [] n v = []"
| "usp_set_first (p # h) n v =
     (if fst p = n then (n, v) # filter (\<lambda>q. fst q \<noteq> n) h else p # usp_set_first h n v)"

definition usp_has :: "Headers \<Rightarrow> jsstring \<Rightarrow> bool" where
  "usp_has h n = list_ex (\<lambda>p. fst p = n) h"

definition usp_set :: "Headers \<Rightarrow> jsstring \<Rightarrow> jsstring \<Rightarrow> Headers" where
  "usp_set h n v = (if usp_has h n then usp_set_first h n v else h @ [(n, v)])"

definition usp_delete :: "Headers \<Rightarrow> jsstring \<Rightarrow> Headers" where
  "usp_delete h n = filter (\<lambda>p. fst p \<noteq> n) h"

definition usp_getAll :: "Headers \<Rightarrow> jsstring \<Rightarrow> jsstring list" where
  "usp_getAll h n = map snd (filter (\<lambda>p. fst p = n) h)"

definition usp_sort :: "Headers \<Rightarrow> Headers" where
  "usp_sort h = sort_key fst h"

definition usp_keys :: "Headers \<Rightarrow> jsstring list" where
  "usp_keys h = map fst h"

subsection \<open>The proxied methods\<close>

definition Headers_append :: "Headers \<Rightarrow> jsstring \<Rightarrow> jsstring \<Rightarrow> error + Headers" where
  "Headers_append h name v =
     (case validate name v of
        Inl e \<Rightarrow> Inl e
      | Inr _ \<Rightarrow> Inr (usp_append h (toLowerCase name) v))"

definition Headers_set :: "Headers \<Rightarrow> jsstring \<Rightarrow> jsstring \<Rightarrow> error + Headers" where
  "Headers_set h name v =
     (case validate name v of
        Inl e \<Rightarrow> Inl e
      | Inr _ \<Rightarrow> Inr (usp_set h (toLowerCase name) v))"

definition Headers_delete :: "Headers \<Rightarrow> jsstring \<Rightarrow> error + Headers" where
  "Headers_delete h name =
     (case validateHeaderName name of
        Inl e \<Rightarrow> Inl e
      | Inr _ \<Rightarrow> Inr (usp_delete h (toLowerCase name)))"

definition Headers_has :: "Headers \<Rightarrow> jsstring \<Rightarrow> error + bool" where
  "Headers_has h name =
     (case validateHeaderName name of
        Inl e \<Rightarrow> Inl e
      | Inr _ \<Rightarrow> Inr (usp_has h (toLowerCase name)))"

definition Headers_getAll :: "Headers \<Rightarrow> jsstring \<Rightarrow> error + jsstring list" where
  "Headers_getAll h name =
     (case validateHeaderName name of
        Inl e \<Rightarrow> Inl e
      | Inr _ \<Rightarrow> Inr (usp_getAll h (toLowerCase name)))"

text \<open>
  \<open>keys\<close> sorts the table in place and returns the names without repetition: the
  result is the names and the sorted table.
\<close>

definition Headers_keys :: "Headers \<Rightarrow> jsstring list \<times> Headers" where
  "Headers_keys h = (let target = usp_sort h in (Set_keys (usp_keys target), target))"

text \<open>
  \<open>get\<close>: the values joined by a comma and a space, lower-cased when the name is
  content-encoding in any case; \<open>None\<close> is \<open>null\<close>.
\<close>

definition Headers_get :: "Headers \<Rightarrow> jsstring \<Rightarrow> error + jsstring option" where
  "Headers_get h name =
     (case Headers_getAll h name of
        Inl e \<Rightarrow> Inl e
      | Inr values \<Rightarrow>
          if values = [] then Inr None
          else let v = join values (js '', '')
               in Inr (Some (if toLowerCase name = js ''content-encoding'' then toLowerCase v else v)))"

text \<open>\<open>raw\<close>: every key of \<open>keys\<close> with all its values, in the order of the keys.\<close>

fun raw_entries :: "Headers \<Rightarrow> jsstring list \<Rightarrow> error + (jsstring \<times> jsstring list) list" where
  "raw_entries h [] = Inr []"
| "raw_entries h (k # ks) =
     (case Headers_getAll h k of
        Inl e \<Rightarrow> Inl e
      | Inr values \<Rightarrow>
          (case raw_entries h ks of
             Inl e \<Rightarrow> Inl e
           | Inr r \<Rightarrow> Inr ((k, values) # r)))"

definition Headers_raw :: "Headers \<Rightarrow> error + (jsstring \<times> jsstring list) list" where
  "Headers_raw h = (case Headers_keys h of (ks, target) \<Rightarrow> raw_entries target ks)"

subsection \<open>The constructor\<close>

text \<open>
  The initialiser is another table, \<open>null\<close>, a record (given as its
  \<open>Object.entries\<close>) or an iterable of iterables of strings.
\<close>

datatype HeadersInit =
    InitHeaders Headers
  | InitNull
  | InitRecord "(jsstring \<times> jsstring) list"
  | InitPairs "jsstring list list"

fun pair_of :: "jsstring list \<Rightarrow> error + (jsstring \<times> jsstring)" where
  "pair_of [name, v] = Inr (name, v)"
| "pair_of p = Inl ERR_PAIR_NOT_TUPLE"

fun pairs_of :: "jsstring list list \<Rightarrow> error + (jsstring \<times> jsstring) list" where
  "pairs_of [] = Inr []"
| "pairs_of (p # ps) =
     (case pair_of p of
        Inl e \<Rightarrow> Inl e
      | Inr q \<Rightarrow>
          (case pairs_of ps of
             Inl e \<Rightarrow> Inl e
           | Inr qs \<Rightarrow> Inr (q # qs)))"

definition init_pairs :: "HeadersInit \<Rightarrow> error + (jsstring \<times> jsstring) list" where
  "init_pairs init =
     (case init of
        InitHeaders h \<Rightarrow>
          (case Headers_raw h of
             Inl e \<Rightarrow> Inl e
           | Inr raw \<Rightarrow> Inr (concat (map (\<lambda>(name, values). map (\<lambda>v. (name, v)) values) raw)))
      | InitNull \<Rightarrow> Inr []
      | InitRecord entries \<Rightarrow> Inr entries
      | InitPairs ps \<Rightarrow> pairs_of ps)"

text \<open>"Validate and lowercase": pair by pair, in order, stopping at the first failure.\<close>

fun validate_and_lowercase :: "(jsstring \<times> jsstring) list \<Rightarrow> error + Headers" where
  "validate_and_lowercase [] = Inr []"
| "validate_and_lowercase ((name, v) # result) =
     (case validate name v of
        Inl e \<Rightarrow> Inl e
      | Inr _ \<Rightarrow>
          (case validate_and_lowercase result of
             Inl e \<Rightarrow> Inl e
           | Inr r \<Rightarrow> Inr ((toLowerCase name, v) # r)))"

definition Headers_new :: "HeadersInit \<Rightarrow> error + Headers" where
  "Headers_new init =
     (case init_pairs init of
        Inl e \<Rightarrow> Inl e
      | Inr result \<Rightarrow> validate_and_lowercase result)"

subsection \<open>fromRawHeaders\<close>

text \<open>
  The \<open>reduce\<close> cuts the flat list at every even index into slices of two; a list of
  odd length ends with a slice of one, whose missing value reads as \<open>undefined\<close> and
  is checked as the string "undefined".
\<close>

fun slices_of_two :: "jsstring list \<Rightarrow> jsstring list list" where
  "slices_of_two [] = []"
| "slices_of_two [name] = [[name]]"
| "slices_of_two (name # v # rest) = [name, v] # slices_of_two rest"

fun conforms :: "jsstring list \<Rightarrow> bool" where
  "conforms [] = False"
| "conforms [name] = (validate name (js ''undefined'') = Inr ())"
| "conforms (name # v # _) = (validate name v = Inr ())"

definition fromRawHeaders :: "jsstring list \<Rightarrow> error + Headers" where
  "fromRawHeaders headers = Headers_new (InitPairs (filter conforms (slices_of_two headers)))"

section \<open>Blob\<close>

text \<open>
  The WeakMap holds a \<open>RawBlob\<close> (type, size, parts) for every Blob; a part is a
  Buffer or another Blob.
\<close>

datatype Blob = RawBlob (blob_type: jsstring) (blob_size: int) (blob_parts: "BlobPart list")
  and BlobPart = PBuffer Buffer | PBlob Blob

text \<open>
  What the constructor accepts as a part. A view and an array buffer are given by the
  bytes they hold; anything else is a string (or turned into one by \<open>String\<close>), which
  \<open>Buffer.from\<close> encodes with the platform's UTF-8 encoder, a parameter here.
\<close>

datatype BlobInput =
    InBuffer Buffer
  | InView Buffer
  | InArrayBuffer Buffer
  | InBlob Blob
  | InString jsstring

definition to_part :: "(jsstring \<Rightarrow> Buffer) \<Rightarrow> BlobInput \<Rightarrow> BlobPart" where
  "to_part utf8 p =
     (case p of
        InBuffer b \<Rightarrow> PBuffer b
      | InView b \<Rightarrow> PBuffer b
      | InArrayBuffer b \<Rightarrow> PBuffer b
      | InBlob b \<Rightarrow> PBlob b
      | InString s \<Rightarrow> PBuffer (utf8 s))"

text \<open>\<open>buf instanceof Blob ? buf.size : buf.length\<close>, also the loop's \<open>size\<close> in slice.\<close>

definition part_size :: "BlobPart \<Rightarrow> int" where
  "part_size p = (case p of PBuffer b \<Rightarrow> int (length b) | PBlob b \<Rightarrow> blob_size b)"

text \<open>
  The type tag: empty when not given, else lower-cased, and empty again when a code unit
  lies outside 0x20-0x7E. (Lower-casing is exact up to 0xFF, see \<open>toLowerCase\<close>; no
  property below reads the tag.)
\<close>

definition printable :: "jschar \<Rightarrow> bool" where
  "printable c = (0x20 \<le> c \<and> c \<le> 0x7E)"

definition type_tag :: "jsstring option \<Rightarrow> jsstring" where
  "type_tag ty =
     (let t = (case ty of None \<Rightarrow> [] | Some s \<Rightarrow> toLowerCase s)
      in if list_ex (\<lambda>c. \<not> printable c) t then [] else t)"

definition Blob_new :: "(jsstring \<Rightarrow> Buffer) \<Rightarrow> BlobInput list \<Rightarrow> jsstring option \<Rightarrow> Blob" where
  "Blob_new utf8 ps ty =
     (let parts = map (to_part utf8) ps;
          size' = foldl (\<lambda>size' buf. size' + part_size buf) 0 parts
      in RawBlob (type_tag ty) size' parts)"

subsection \<open>slice\<close>

text \<open>
  A relative index, as slice computes \<open>relativeStart\<close> and \<open>relativeEnd\<close>;
  \<open>Buffer.prototype.slice\<close> adjusts its two offsets the same way.
\<close>

definition relative_index :: "int \<Rightarrow> int \<Rightarrow> int" where
  "relative_index i size' = (if i < 0 then max (size' + i) 0 else min i size')"

definition Buffer_slice :: "Buffer \<Rightarrow> int \<Rightarrow> int \<Rightarrow> Buffer" where
  "Buffer_slice b start end' =
     (let len = int (length b);
          s = relative_index start len;
          e = relative_index end' len
      in take (nat (e - s)) (drop (nat s) b))"

text \<open>
  \<open>slice_loop\<close> is the \<open>for\<close> loop over the parts, with \<open>relativeStart\<close>,
  \<open>relativeEnd\<close>, \<open>added\<close> and \<open>blobParts\<close> as its state; it returns at the
  \<open>break\<close> or when the parts are used up. The new Blob is made with no parts and the
  given type, and then receives \<open>span\<close> and \<open>blobParts\<close>.
\<close>

fun slice :: "Blob \<Rightarrow> int \<Rightarrow> int \<Rightarrow> jsstring \<Rightarrow> Blob"
  and slice_loop :: "BlobPart list \<Rightarrow> int \<Rightarrow> int \<Rightarrow> int \<Rightarrow> int \<Rightarrow> BlobPart list \<Rightarrow> BlobPart list"
where
  "slice (RawBlob ty size' parts) start end' type' =
     (let relativeStart = relative_index start size';
          relativeEnd = relative_index end' size';
          span = max (relativeEnd - relativeStart) 0;
          blobParts = slice_loop parts relativeStart relativeEnd span 0 []
      in RawBlob (type_tag (Some type')) span blobParts)"
| "slice_loop [] relativeStart relativeEnd span added blobParts = blobParts"
| "slice_loop (PBuffer b # parts) relativeStart relativeEnd span added blobParts =
     (let size' = int (length b) in
      if relativeStart \<noteq> 0 \<and> size' \<le> relativeStart
      then slice_loop parts (relativeStart - size') (relativeEnd - size') span added blobParts
      else
        let chunk = Buffer_slice b relativeStart (min size' relativeEnd);
            added' = added + int (length chunk)
        in if added' \<ge> span then blobParts @ [PBuffer chunk]
           else slice_loop parts 0 relativeEnd span added' (blobParts @ [PBuffer chunk]))"
| "slice_loop (PBlob p # parts) relativeStart relativeEnd span added blobParts =
     (let size' = blob_size p in
      if relativeStart \<noteq> 0 \<and> size' \<le> relativeStart
      then slice_loop parts (relativeStart - size') (relativeEnd - size') span added blobParts
      else
        let chunk = slice p relativeStart (min size' relativeEnd) [];
            added' = added + blob_size chunk
        in if added' \<ge> span then blobParts @ [PBlob chunk]
           else slice_loop parts 0 relativeEnd span added' (blobParts @ [PBlob chunk]))"

subsection \<open>stream and data\<close>

text \<open>The chunks \<open>stream\<close> yields: \<open>Blob_read\<close> is the generator \<open>_read\<close>.\<close>

fun stream :: "Blob \<Rightarrow> Buffer list"
  and Blob_read :: "BlobPart list \<Rightarrow> Buffer list"
where
  "stream (RawBlob ty size' parts) = Blob_read parts"
| "Blob_read [] = []"
| "Blob_read (PBuffer b # parts) = b # Blob_read parts"
| "Blob_read (PBlob p # parts) = stream p @ Blob_read parts"

text \<open>
  \<open>data.set(chunk, offset)\<close> on a Uint8Array: a RangeError when the chunk does not
  fit at the offset.
\<close>

definition Uint8Array_set :: "Buffer \<Rightarrow> Buffer \<Rightarrow> nat \<Rightarrow> error + Buffer" where
  "Uint8Array_set data chunk offset =
     (if offset + length chunk > length data then Inl ERR_OUT_OF_RANGE
      else Inr (take offset data @ chunk @ drop (offset + length chunk) data))"

fun data_loop :: "Buffer list \<Rightarrow> Buffer \<Rightarrow> nat \<Rightarrow> error + Buffer" where
  "data_loop [] data offset = Inr data"
| "data_loop (chunk # chunks) data offset =
     (case Uint8Array_set data chunk offset of
        Inl e \<Rightarrow> Inl e
      | Inr data' \<Rightarrow> data_loop chunks data' (offset + length chunk))"

text \<open>\<open>new Uint8Array(size)\<close> is zero-filled, and a RangeError for a negative size.\<close>

definition Blob_data :: "Blob \<Rightarrow> error + Buffer" where
  "Blob_data b =
     (if blob_size b < 0 then Inl ERR_OUT_OF_RANGE
      else data_loop (stream b) (replicate (nat (blob_size b)) 0) 0)"

subsection \<open>The size invariant\<close>

text \<open>
  "Size is the sum of the sizes of the parts", for a Blob and for every Blob nested in
  its parts.
\<close>

fun size_invariant :: "Blob \<Rightarrow> bool"
  and parts_invariant :: "BlobPart list \<Rightarrow> bool"
where
  "size_invariant (RawBlob ty size' parts) = (size' = sum_list (map part_size parts) \<and> parts_invariant parts)"
| "parts_invariant [] = True"
| "parts_invariant (PBuffer b # parts) = parts_invariant parts"
| "parts_invariant (PBlob p # parts) = (size_invariant p \<and> parts_invariant parts)"

section \<open>Request bodies and JSON\<close>

text \<open>
  A plain value, as \<open>JSON.stringify\<close> sees it. A number is an integer here; an
  object is given by its entries.
\<close>

datatype json =
    JNull
  | JBool bool
  | JNum int
  | JStr jsstring
  | JArr "json list"
  | JObj "(jsstring \<times> json) list"

text \<open>
  \<open>JSON.stringify\<close> of the platform: decimal digits for an integer (as for every
  integer a number holds exactly), double quotes around a string with the quote, the
  backslash, the control characters and lone surrogates escaped, no white space.
\<close>

fun digits :: "nat \<Rightarrow> jsstring" where
  "digits n = (if n < 10 then [of_nat (48 + n)] else digits (n div 10) @ [of_nat (48 + n mod 10)])"

definition number_text :: "int \<Rightarrow> jsstring" where
  "number_text i = (if i < 0 then 0x2D # digits (nat (- i)) else digits (nat i))"

definition hex_digit :: "jschar \<Rightarrow> jschar" where
  "hex_digit d = (if d < 10 then 0x30 + d else 0x57 + d)"

definition unicode_escape :: "jschar \<Rightarrow> jsstring" where
  "unicode_escape c =
     [0x5C, 0x75, hex_digit (drop_bit 12 c), hex_digit (take_bit 4 (drop_bit 8 c)),
      hex_digit (take_bit 4 (drop_bit 4 c)), hex_digit (take_bit 4 c)]"

definition escape_unit :: "jschar \<Rightarrow> jsstring" where
  "escape_unit c =
     (if c = 0x22 then [0x5C, 0x22]
      else if c = 0x5C then [0x5C, 0x5C]
      else if c = 0x08 then [0x5C, 0x62]
      else if c = 0x0C then [0x5C, 0x66]
      else if c = 0x0A then [0x5C, 0x6E]
      else if c = 0x0D then [0x5C, 0x72]
      else if c = 0x09 then [0x5C, 0x74]
      else if c < 0x20 then unicode_escape c
      else [c])"

definition lead_surrogate :: "jschar \<Rightarrow> bool" where
  "lead_surrogate c = (0xD800 \<le> c \<and> c \<le> 0xDBFF)"

definition trail_surrogate :: "jschar \<Rightarrow> bool" where
  "trail_surrogate c = (0xDC00 \<le> c \<and> c \<le> 0xDFFF)"

fun quote_units :: "jsstring \<Rightarrow> jsstring" where
  "quote_units [] = []"
| "quote_units [c] =
     (if lead_surrogate c \<or> trail_surrogate c then unicode_escape c else escape_unit c)"
| "quote_units (c # d # cs) =
     (if lead_surrogate c \<and> trail_surrogate d then c # d # quote_units cs
      else if lead_surrogate c \<or> trail_surrogate c then unicode_escape c @ quote_units (d # cs)
      else escape_unit c @ quote_units (d # cs))"

definition quote :: "jsstring \<Rightarrow> jsstring" where
  "quote s = [0x22] @ quote_units s @ [0x22]"

fun JSON_stringify :: "json \<Rightarrow> jsstring" where
  "JSON_stringify JNull = js ''null''"
| "JSON_stringify (JBool b) = (if b then js ''true'' else js ''false'')"
| "JSON_stringify (JNum i) = number_text i"
| "JSON_stringify (JStr s) = quote s"
| "JSON_stringify (JArr xs) = js ''['' @ join (map JSON_stringify xs) (js '','') @ js '']''"
| "JSON_stringify (JObj entries) =
     js ''{'' @ join (map (\<lambda>kv. quote (fst kv) @ js '':'' @ JSON_stringify (snd kv)) entries) (js '','')
       @ js ''}''"

text \<open>
  What a request body can be: \<open>undefined\<close>, a plain value, a Buffer or a Blob. (The
  optional form-data module is taken as not installed, so \<open>FormData\<close> is
  \<open>undefined\<close>.)
\<close>

datatype Body = Undefined | Plain json | BufferBody Buffer | BlobBody Blob

text \<open>\<open>Buffer.prototype.toJSON\<close>, which \<open>JSON.stringify\<close> calls on a Buffer.\<close>

definition Buffer_toJSON :: "Buffer \<Rightarrow> json" where
  "Buffer_toJSON b =
     JObj [(js ''type'', JStr (js ''Buffer'')), (js ''data'', JArr (map (\<lambda>x. JNum (uint x)) b))]"

text \<open>A Blob has no enumerable property of its own: its state is in the WeakMap.\<close>

definition stringify_body :: "Body \<Rightarrow> jsstring" where
  "stringify_body b =
     (case b of
        Plain j \<Rightarrow> JSON_stringify j
      | BufferBody buf \<Rightarrow> JSON_stringify (Buffer_toJSON buf)
      | BlobBody p \<Rightarrow> JSON_stringify (JObj [])
      | Undefined \<Rightarrow> [])"

text \<open>Truthiness, \<open>instanceof Object\<close> and \<open>typeof = "object"\<close>.\<close>

definition truthy :: "Body \<Rightarrow> bool" where
  "truthy b =
     (case b of
        Undefined \<Rightarrow> False
      | Plain JNull \<Rightarrow> False
      | Plain (JBool t) \<Rightarrow> t
      | Plain (JNum i) \<Rightarrow> i \<noteq> 0
      | Plain (JStr s) \<Rightarrow> s \<noteq> []
      | _ \<Rightarrow> True)"

definition instanceof_Object :: "Body \<Rightarrow> bool" where
  "instanceof_Object b =
     (case b of
        Plain (JArr xs) \<Rightarrow> True
      | Plain (JObj entries) \<Rightarrow> True
      | BufferBody buf \<Rightarrow> True
      | BlobBody p \<Rightarrow> True
      | _ \<Rightarrow> False)"

definition isObject :: "Body \<Rightarrow> bool" where
  "isObject b = (case b of Plain JNull \<Rightarrow> True | _ \<Rightarrow> instanceof_Object b)"

section \<open>Request\<close>

datatype Method = GET | POST | DELETE | PATCH | PUT | HEAD | OPTIONS | CONNECT | TRACE

datatype Follow = FollowBool bool | FollowCount int

text \<open>
  \<open>RequestData\<close>: every property is optional, \<open>None\<close> is a property the object
  does not have. An agent and a signal are given by a handle.
\<close>

record RequestData =
  headers :: "HeadersInit option"  method' :: "Method option"
  query :: "(jsstring \<times> jsstring) list option"  body :: "Body option"
  timeout :: "int option"  follow :: "Follow option"  compressData :: "bool option"
  agent :: "nat option"  signal :: "nat option"

definition defaultRequestOptions :: RequestData where
  "defaultRequestOptions =
     \<lparr>headers = Some (InitRecord []), method' = Some GET, query = Some [],
      body = Some (Plain JNull), timeout = None, follow = Some (FollowBool False),
      compressData = Some False, agent = None, signal = None\<rparr>"

text \<open>
  \<open>Object.assign(target, source)\<close>: every property the source has is written to the
  target, which is returned.
\<close>

definition assigned :: "'a option \<Rightarrow> 'a option \<Rightarrow> 'a option" where
  "assigned t s = (case s of None \<Rightarrow> t | Some v \<Rightarrow> Some v)"

definition Object_assign :: "RequestData \<Rightarrow> RequestData \<Rightarrow> RequestData" where
  "Object_assign t s =
     \<lparr>headers = assigned (headers t) (headers s), method' = assigned (method' t) (method' s),
      query = assigned (query t) (query s), body = assigned (body t) (body s),
      timeout = assigned (timeout t) (timeout s), follow = assigned (follow t) (follow s),
      compressData = assigned (compressData t) (compressData s),
      agent = assigned (agent t) (agent s), signal = assigned (signal t) (signal s)\<rparr>"

text \<open>The options object \<open>{}\<close>.\<close>

definition no_options :: RequestData where
  "no_options =
     \<lparr>headers = None, method' = None, query = None, body = None, timeout = None, follow = None,
      compressData = None, agent = None, signal = None\<rparr>"

text \<open>A parsed URL: what it was parsed from, and the query parameters appended since.\<close>

record URL =
  href :: jsstring
  searchParams :: "(jsstring \<times> jsstring) list"

text \<open>
  A Request. Its \<open>_options\<close> is not a field: the constructor stores what
  \<open>Object.assign(defaultRequestOptions, options)\<close> returns, which is the module's
  \<open>defaultRequestOptions\<close> object itself, so every Request reads and writes its options
  in that one object. The object is the state the operations below take and return.
\<close>

record Request =
  url :: URL
  redirects :: int
  req_method :: Method
  req_body :: Body
  req_signal :: "nat option"
  req_headers :: Headers

text \<open>
  The constructor. The first component is \<open>defaultRequestOptions\<close> afterwards; the
  assignment to it comes first, so it stays when the Headers constructor throws.
\<close>

definition Request_new :: "RequestData \<Rightarrow> URL \<Rightarrow> RequestData \<Rightarrow> RequestData \<times> (error + Request)" where
  "Request_new defaults u opts =
     (let options = Object_assign defaults opts
      in (options,
          case Headers_new (case headers options of None \<Rightarrow> InitRecord [] | Some init \<Rightarrow> init) of
            Inl e \<Rightarrow> Inl e
          | Inr h \<Rightarrow>
              Inr \<lparr>url = u\<lparr>searchParams := searchParams u @ (case query options of None \<Rightarrow> [] | Some q \<Rightarrow> q)\<rparr>,
                   redirects = 0,
                   req_method = (case method' options of None \<Rightarrow> GET | Some m \<Rightarrow> m),
                   req_body = (case body options of None \<Rightarrow> Undefined | Some b \<Rightarrow> b),
                   req_signal = signal options,
                   req_headers = h\<rparr>))"

text \<open>The builder methods that write to \<open>_options\<close>.\<close>

definition truthy_follow :: "Follow option \<Rightarrow> bool" where
  "truthy_follow f =
     (case f of None \<Rightarrow> False | Some (FollowBool b) \<Rightarrow> b | Some (FollowCount n) \<Rightarrow> n \<noteq> 0)"

definition Request_follow :: "RequestData \<Rightarrow> int option \<Rightarrow> RequestData" where
  "Request_follow options count' =
     (case count' of
        Some c \<Rightarrow>
          if c \<noteq> 0 then options\<lparr>follow := Some (FollowCount c)\<rparr>
          else options\<lparr>follow := Some (FollowBool (\<not> truthy_follow (follow options)))\<rparr>
      | None \<Rightarrow> options\<lparr>follow := Some (FollowBool (\<not> truthy_follow (follow options)))\<rparr>)"

definition Request_compress :: "RequestData \<Rightarrow> RequestData" where
  "Request_compress options =
     options\<lparr>compressData := Some (\<not> (case compressData options of None \<Rightarrow> False | Some c \<Rightarrow> c))\<rparr>"

section \<open>Response\<close>

text \<open>
  An \<open>IncomingMessage\<close> as the transport hands it over: status, the parsed and the
  raw headers, the chunks its data events deliver before it ends, and the streams it has
  been piped into.
\<close>

datatype zlib = Gunzip | Deflate

record IncomingMessage =
  statusCode :: "int option"
  msg_headers :: "(jsstring \<times> jsstring) list"
  rawHeaders :: "jsstring list"
  chunks :: "Buffer list"
  pipes :: "zlib list"

record Response =
  request :: Request
  message :: IncomingMessage
  buf :: Buffer

definition Response_new :: "Request \<Rightarrow> IncomingMessage \<Rightarrow> Response" where
  "Response_new req msg = \<lparr>request = req, message = msg, buf = []\<rparr>"

definition Response_statusCode :: "Response \<Rightarrow> int" where
  "Response_statusCode r = (case statusCode (message r) of None \<Rightarrow> 200 | Some c \<Rightarrow> c)"

definition Response_ok :: "Response \<Rightarrow> bool" where
  "Response_ok r = (Response_statusCode r \<le> 200 \<and> Response_statusCode r < 300)"

definition Response_chunk :: "Response \<Rightarrow> Buffer \<Rightarrow> Response" where
  "Response_chunk r data = r\<lparr>buf := buf r @ data\<rparr>"

section \<open>exec\<close>

text \<open>
  The exchange is followed where no timeout is set, no signal aborts, and the transport
  and the response stream raise no error. The transport is a list of messages: the
  first request issued is answered by the first message, a redirected one by the next,
  and a request issued when the list is used up is never answered. Every chunk of a
  message reaches every listener: the back-pressure of a pipe whose output nobody reads is
  left out.
\<close>

subsection \<open>Writing the body\<close>

text \<open>
  The local \<open>_body\<close>: the body as it is, the string \<open>JSON.stringify\<close> made, or the
  promise \<open>data()\<close> returned. \<open>written\<close> is what \<open>req.write\<close> receives once the
  promise is awaited; \<open>None\<close> when nothing is written.
\<close>

datatype local_body = LBody Body | LString jsstring | LPromise "error + Buffer"

datatype written = WBody Body | WString jsstring | WArrayBuffer Buffer

definition write_body :: "Body \<Rightarrow> error + written option" where
  "write_body b =
     (if truthy b then
        (let l0 = LBody b;
             l1 = (if instanceof_Object b then LString (stringify_body b) else l0);
             l2 = (case b of BlobBody p \<Rightarrow> LPromise (Blob_data p) | _ \<Rightarrow> l1)
         in case l2 of
              LPromise (Inl e) \<Rightarrow> Inl e
            | LPromise (Inr d) \<Rightarrow> Inr (Some (WArrayBuffer d))
            | LString s \<Rightarrow> Inr (Some (WString s))
            | LBody v \<Rightarrow> Inr (Some (WBody v)))
      else Inr None)"

subsection \<open>Before the promise: user-agent and content-type\<close>

definition string_truthy :: "jsstring option \<Rightarrow> bool" where
  "string_truthy v = (case v of None \<Rightarrow> False | Some s \<Rightarrow> s \<noteq> [])"

text \<open>\<open>UA\<close> is \<open>RIKUESUTO_USER_AGENT\<close>, which is built from the package's version.\<close>

definition exec_prepare :: "jsstring \<Rightarrow> Request \<Rightarrow> error + Request" where
  "exec_prepare UA req =
     (case Headers_get (req_headers req) (js ''user-agent'') of
        Inl e \<Rightarrow> Inl e
      | Inr ua \<Rightarrow>
          (case (if \<not> string_truthy ua then Headers_set (req_headers req) (js ''user-agent'') UA
                 else Inr (req_headers req)) of
             Inl e \<Rightarrow> Inl e
           | Inr h1 \<Rightarrow>
               (case Headers_get h1 (js ''content-type'') of
                  Inl e \<Rightarrow> Inl e
                | Inr ct \<Rightarrow>
                    if \<not> string_truthy ct \<and> truthy (req_body req) \<and> isObject (req_body req)
                    then (case Headers_append h1 (js ''content-type'') (js ''application/json'') of
                            Inl e \<Rightarrow> Inl e
                          | Inr h2 \<Rightarrow> Inr (req\<lparr>req_headers := h2\<rparr>))
                    else Inr (req\<lparr>req_headers := h1\<rparr>))))"

subsection \<open>Issuing the request\<close>

text \<open>
  What the transport receives for one request: the Request that issued it, the raw
  headers, and the body written (an error when reading the body failed, so that the
  request was never ended).
\<close>

record Sent =
  sender :: Request
  sent_headers :: "(jsstring \<times> jsstring list) list"
  sent_body :: "error + written option"

definition exec_send :: "Request \<Rightarrow> error + Request \<times> Sent" where
  "exec_send req =
     (case Headers_raw (req_headers req) of
        Inl e \<Rightarrow> Inl e
      | Inr raw \<Rightarrow>
          (let req' = req\<lparr>req_headers := usp_sort (req_headers req)\<rparr>
           in Inr (req', \<lparr>sender = req', sent_headers = raw, sent_body = write_body (req_body req)\<rparr>)))"

subsection \<open>The response listener\<close>

text \<open>
  How the promise of \<open>exec\<close> ends: resolved with a Response, never settled (no
  response arrives, or something throws inside the asynchronous executor or listener), or
  \<open>exec\<close> itself throws before the promise is made.
\<close>

datatype Outcome = Resolved Response | Unsettled | Thrown error

text \<open>
  \<open>resp.pipe(zlib.createGunzip())\<close> and \<open>resp.pipe(zlib.createDeflate())\<close>: the
  message gets one more destination. Nothing reads what the destination produces.
\<close>

definition pipe_decoder :: "RequestData \<Rightarrow> IncomingMessage \<Rightarrow> IncomingMessage" where
  "pipe_decoder options resp =
     (if compressData options = Some True then
        (let encoding = map_of (msg_headers resp) (js ''content-encoding'');
             resp1 = (if encoding = Some (js ''gzip'') then resp\<lparr>pipes := pipes resp @ [Gunzip]\<rparr> else resp)
         in if encoding = Some (js ''deflate'') then resp1\<lparr>pipes := pipes resp1 @ [Deflate]\<rparr> else resp1)
      else resp)"

text \<open>\<open>this.redirects !== this._options.follow\<close>: a number never equals a boolean.\<close>

definition strict_neq :: "int \<Rightarrow> Follow option \<Rightarrow> bool" where
  "strict_neq n f = (case f of Some (FollowCount c) \<Rightarrow> n \<noteq> c | _ \<Rightarrow> True)"

text \<open>
  The listener ends the exchange, or hands over to the Request it made for the
  redirect. \<open>settle\<close> is the path from \<open>new Response\<close> to the \<open>end\<close> event: every
  chunk of the message goes through \<open>_chunk\<close>.
\<close>

datatype Step = Settle RequestData Outcome | Redirect RequestData Request

definition settle :: "Request \<Rightarrow> IncomingMessage \<Rightarrow> Outcome" where
  "settle req resp = Resolved (foldl Response_chunk (Response_new req resp) (chunks resp))"

definition exec_response ::
  "(jsstring \<Rightarrow> URL \<Rightarrow> URL option) \<Rightarrow> RequestData \<Rightarrow> Request \<Rightarrow> IncomingMessage \<Rightarrow> Step" where
  "exec_response resolve options req resp0 =
     (let resp = pipe_decoder options resp0 in
      case fromRawHeaders (rawHeaders resp) of
        Inl e \<Rightarrow> Settle options Unsettled
      | Inr hs \<Rightarrow>
          (case Headers_get hs (js ''Location'') of
             Inl e \<Rightarrow> Settle options Unsettled
           | Inr None \<Rightarrow> Settle options (settle req resp)
           | Inr (Some location) \<Rightarrow>
               if location \<noteq> [] \<and> truthy_follow (follow options)
               then
                 if strict_neq (redirects req) (follow options)
                 then
                   (case resolve location (url req) of
                      None \<Rightarrow> Settle options Unsettled
                    | Some u \<Rightarrow>
                        (case Request_new options u
                                (options\<lparr>headers := Some (InitHeaders (req_headers req)),
                                         body := Some (req_body req)\<rparr>) of
                           (options', Inl e) \<Rightarrow> Settle options' Unsettled
                         | (options', Inr next) \<Rightarrow>
                             Redirect options' (next\<lparr>redirects := redirects req\<rparr>)))
                 else Settle options (settle req resp)
               else Settle options (settle req resp)))"

subsection \<open>exec\<close>

text \<open>
  The result is \<open>defaultRequestOptions\<close> afterwards, the requests issued in order, and
  how the promise ends. An \<open>exec\<close> that throws inside the listener of the request
  before leaves the promise unsettled.
\<close>

fun exec ::
  "jsstring \<Rightarrow> (jsstring \<Rightarrow> URL \<Rightarrow> URL option) \<Rightarrow> RequestData \<Rightarrow> Request \<Rightarrow> IncomingMessage list
     \<Rightarrow> RequestData \<times> Sent list \<times> Outcome" where
  "exec UA resolve options req msgs =
     (case exec_prepare UA req of
        Inl e \<Rightarrow> (options, [], Thrown e)
      | Inr req1 \<Rightarrow>
          (case exec_send req1 of
             Inl e \<Rightarrow> (options, [], Unsettled)
           | Inr (req2, sent) \<Rightarrow>
               (case sent_body sent of
                  Inl e \<Rightarrow> (options, [sent], Unsettled)
                | Inr w \<Rightarrow>
                    (case msgs of
                       [] \<Rightarrow> (options, [sent], Unsettled)
                     | resp # rest \<Rightarrow>
                         (case exec_response resolve options req2 resp of
                            Settle options' out \<Rightarrow> (options', [sent], out)
                          | Redirect options' next \<Rightarrow>
                              (case exec UA resolve options' next rest of
                                 (options'', sents, out) \<Rightarrow>
                                   (options'', sent # sents,
                                    case out of Thrown e \<Rightarrow> Unsettled | _ \<Rightarrow> out)))))))"

section \<open>Properties\<close>

subsection \<open>Response.ok\<close>

text \<open>
  C2. The claim: \<open>ok\<close> is true exactly when the status code lies in [200, 300). The
  getter tests \<open>statusCode <= 200 && statusCode < 300\<close>, so it is true exactly when
  the status code is at most 200: false at 201, true at 100.
\<close>

theorem ok_only_up_to_200:
  "Response_ok r = (Response_statusCode r \<le> 200) \<and>
   \<not> Response_ok (r\<lparr>message := (message r)\<lparr>statusCode := Some 201\<rparr>\<rparr>) \<and>
   Response_ok (r\<lparr>message := (message r)\<lparr>statusCode := Some 100\<rparr>\<rparr>)"
  by (auto simp: Response_ok_def Response_statusCode_def)

subsection \<open>Header names are checked before anything is stored or looked up\<close>

lemma validate_invalid_name:
  "\<not> http_token name \<Longrightarrow> validate name v = Inl (ERR_INVALID_HTTP_TOKEN name)"
  by (simp add: validate_def validateHeaderName_def)

lemma validate_and_lowercase_stops_at_name:
  "list_all (\<lambda>p. validate (fst p) (snd p) = Inr ()) pre \<Longrightarrow> \<not> http_token name \<Longrightarrow>
   validate_and_lowercase (pre @ (name, v) # post) = Inl (ERR_INVALID_HTTP_TOKEN name)"
  by (induction pre) (auto simp: validate_invalid_name)

lemma pairs_of_tuples: "pairs_of (map (\<lambda>p. [fst p, snd p]) ps) = Inr ps"
  by (induction ps) auto

text \<open>
  C7. For a header name that is not an HTTP token, \<open>append\<close>, \<open>set\<close>, \<open>delete\<close>,
  \<open>has\<close> and \<open>getAll\<close> fail with the invalid-token error (the spec's
  InvalidHeaderName) on every table and with every value, and so does the constructor,
  from a record and from a sequence of pairs, for an initialiser that holds the name:
  the constructor checks pair by pair, so the name is reached when the pairs before it
  pass (as they do when it is the first). Nothing is returned but the error, so the name
  is neither stored nor looked up.
\<close>

theorem invalid_header_name_rejected:
  assumes "\<not> http_token name"
    and "list_all (\<lambda>p. validate (fst p) (snd p) = Inr ()) pre"
  shows "Headers_append h name v = Inl (ERR_INVALID_HTTP_TOKEN name) \<and>
         Headers_set h name v = Inl (ERR_INVALID_HTTP_TOKEN name) \<and>
         Headers_delete h name = Inl (ERR_INVALID_HTTP_TOKEN name) \<and>
         Headers_has h name = Inl (ERR_INVALID_HTTP_TOKEN name) \<and>
         Headers_getAll h name = Inl (ERR_INVALID_HTTP_TOKEN name) \<and>
         Headers_new (InitRecord (pre @ (name, v) # post)) = Inl (ERR_INVALID_HTTP_TOKEN name) \<and>
         Headers_new (InitPairs (map (\<lambda>p. [fst p, snd p]) (pre @ (name, v) # post)))
           = Inl (ERR_INVALID_HTTP_TOKEN name)"
proof -
  have ops: "Headers_append h name v = Inl (ERR_INVALID_HTTP_TOKEN name)"
    "Headers_set h name v = Inl (ERR_INVALID_HTTP_TOKEN name)"
    "Headers_delete h name = Inl (ERR_INVALID_HTTP_TOKEN name)"
    "Headers_has h name = Inl (ERR_INVALID_HTTP_TOKEN name)"
    "Headers_getAll h name = Inl (ERR_INVALID_HTTP_TOKEN name)"
    using assms(1)
    by (simp_all add: Headers_append_def Headers_set_def Headers_delete_def Headers_has_def
        Headers_getAll_def validate_invalid_name validateHeaderName_def)
  have ctor: "validate_and_lowercase (pre @ (name, v) # post) = Inl (ERR_INVALID_HTTP_TOKEN name)"
    using assms by (simp add: validate_and_lowercase_stops_at_name)
  have rec: "Headers_new (InitRecord (pre @ (name, v) # post)) = Inl (ERR_INVALID_HTTP_TOKEN name)"
    using ctor by (simp add: Headers_new_def init_pairs_def)
  have prs: "Headers_new (InitPairs (map (\<lambda>p. [fst p, snd p]) (pre @ (name, v) # post)))
           = Inl (ERR_INVALID_HTTP_TOKEN name)"
    using ctor by (simp only: Headers_new_def init_pairs_def HeadersInit.case pairs_of_tuples sum.case)
  from ops rec prs show ?thesis by simp
qed

lemma bad_name_no_token: "\<not> http_token (js ''Bad Name!'')"
  by (simp add: http_token_def js_def token_char_def word_char_def)

lemma a_1_valid: "validate (js ''a'') (js ''1'') = Inr ()"
  by (simp add: validate_def validateHeaderName_def validateHeaderValue_def http_token_def js_def
      token_char_def word_char_def value_char_def)

theorem invalid_header_name_rejected_witness:
  "\<not> http_token (js ''Bad Name!'') \<and>
   list_all (\<lambda>p. validate (fst p) (snd p) = Inr ()) [(js ''a'', js ''1'')] \<and>
   Headers_append [] (js ''Bad Name!'') (js ''v2'') = Inl (ERR_INVALID_HTTP_TOKEN (js ''Bad Name!'')) \<and>
   Headers_set [] (js ''Bad Name!'') (js ''v2'') = Inl (ERR_INVALID_HTTP_TOKEN (js ''Bad Name!'')) \<and>
   Headers_delete [] (js ''Bad Name!'') = Inl (ERR_INVALID_HTTP_TOKEN (js ''Bad Name!'')) \<and>
   Headers_has [] (js ''Bad Name!'') = Inl (ERR_INVALID_HTTP_TOKEN (js ''Bad Name!'')) \<and>
   Headers_getAll [] (js ''Bad Name!'') = Inl (ERR_INVALID_HTTP_TOKEN (js ''Bad Name!'')) \<and>
   Headers_new (InitRecord [(js ''a'', js ''1''), (js ''Bad Name!'', js ''v2''), (js ''b'', js ''3'')])
     = Inl (ERR_INVALID_HTTP_TOKEN (js ''Bad Name!'')) \<and>
   Headers_new (InitPairs [[js ''a'', js ''1''], [js ''Bad Name!'', js ''v2''], [js ''b'', js ''3'']])
     = Inl (ERR_INVALID_HTTP_TOKEN (js ''Bad Name!''))"
  using invalid_header_name_rejected
    [of "js ''Bad Name!''" "[(js ''a'', js ''1'')]" "[]" "js ''v2''" "[(js ''b'', js ''3'')]"]
    bad_name_no_token a_1_valid
  by simp

subsection \<open>fromRawHeaders keeps the conforming pairs\<close>

lemma filter_upt_Suc:
  "filter P [0..<Suc n] = (if P 0 then [0] else []) @ map Suc (filter (\<lambda>i. P (Suc i)) [0..<n])"
proof -
  have "[0..<Suc n] = 0 # map Suc [0..<n]"
    by (simp add: upt_conv_Cons map_Suc_upt del: upt_Suc)
  then show ?thesis by (simp add: filter_map comp_def del: upt_Suc)
qed

lemma conforming_slices:
  "even (length xs) \<Longrightarrow>
   pairs_of (filter conforms (slices_of_two xs))
     = Inr (map (\<lambda>i. (xs ! (2 * i), xs ! (2 * i + 1)))
             (filter (\<lambda>i. validate (xs ! (2 * i)) (xs ! (2 * i + 1)) = Inr ()) [0..<length xs div 2]))"
proof (induction xs rule: slices_of_two.induct)
  case 1
  then show ?case by simp
next
  case (2 name)
  then show ?case by simp
next
  case (3 name v rest)
  then have "even (length rest)" by simp
  with 3 show ?case
    by (simp add: filter_upt_Suc comp_def del: upt_Suc)
qed

lemma validate_and_lowercase_valid:
  "list_all (\<lambda>p. validate (fst p) (snd p) = Inr ()) ps \<Longrightarrow>
   validate_and_lowercase ps = Inr (map (\<lambda>p. (toLowerCase (fst p), snd p)) ps)"
  by (induction ps) auto

text \<open>
  C8. For a flat list of alternating names and values (a list of even length),
  \<open>fromRawHeaders\<close> raises nothing and returns the table of exactly the pairs at
  positions \<open>2i\<close>, \<open>2i+1\<close> whose name and value both pass validation, in their order,
  the name lower-cased; every other pair is dropped.
\<close>

theorem fromRawHeaders_keeps_conforming_pairs:
  assumes "even (length xs)"
  shows "fromRawHeaders xs
     = Inr (map (\<lambda>i. (toLowerCase (xs ! (2 * i)), xs ! (2 * i + 1)))
             (filter (\<lambda>i. validate (xs ! (2 * i)) (xs ! (2 * i + 1)) = Inr ()) [0..<length xs div 2]))"
proof -
  let ?kept = "filter (\<lambda>i. validate (xs ! (2 * i)) (xs ! (2 * i + 1)) = Inr ()) [0..<length xs div 2]"
  let ?ps = "map (\<lambda>i. (xs ! (2 * i), xs ! (2 * i + 1))) ?kept"
  have "list_all (\<lambda>p. validate (fst p) (snd p) = Inr ()) ?ps"
    by (simp add: list_all_iff)
  then have "validate_and_lowercase ?ps = Inr (map (\<lambda>p. (toLowerCase (fst p), snd p)) ?ps)"
    by (rule validate_and_lowercase_valid)
  then show ?thesis
    using conforming_slices [OF assms]
    by (simp add: fromRawHeaders_def Headers_new_def init_pairs_def comp_def)
qed

text \<open>The list of the spec: valid-name and another are kept, the pair of "Bad Name!" is not.\<close>

theorem fromRawHeaders_keeps_conforming_pairs_witness:
  "even (length (map js [''Valid-Name'', ''v1'', ''Bad Name!'', ''v2'', ''Another'', ''v3''])) \<and>
   fromRawHeaders (map js [''Valid-Name'', ''v1'', ''Bad Name!'', ''v2'', ''Another'', ''v3''])
     = Inr [(js ''valid-name'', js ''v1''), (js ''another'', js ''v3'')]"
  using fromRawHeaders_keeps_conforming_pairs
    [of "map js [''Valid-Name'', ''v1'', ''Bad Name!'', ''v2'', ''Another'', ''v3'']"]
  by (simp add: upt_rec validate_def validateHeaderName_def validateHeaderValue_def http_token_def
      js_def token_char_def word_char_def value_char_def toLowerCase_def toLowerCase_unit_def)

subsection \<open>keys\<close>

lemma set_Set_add: "set (foldl Set_add seen xs) = set seen \<union> set xs"
  by (induction xs arbitrary: seen) (auto simp: Set_add_def)

lemma distinct_Set_add: "distinct seen \<Longrightarrow> distinct (foldl Set_add seen xs)"
  by (induction xs arbitrary: seen) (auto simp: Set_add_def)

lemma sorted_Set_add: "sorted (seen @ xs) \<Longrightarrow> sorted (foldl Set_add seen xs)"
proof (induction xs arbitrary: seen)
  case Nil
  then show ?case by simp
next
  case (Cons x xs)
  show ?case
  proof (cases "x \<in> set seen")
    case True
    from Cons.prems have "sorted (seen @ xs)" by (auto simp: sorted_append)
    with True Cons.IH show ?thesis by (simp add: Set_add_def)
  next
    case False
    from Cons.prems have "sorted ((seen @ [x]) @ xs)" by simp
    with False Cons.IH show ?thesis by (simp add: Set_add_def)
  qed
qed

text \<open>
  C9. For every table, \<open>keys()\<close> returns the names of the table in ascending order,
  each name once; and two tables that hold the same pairs, inserted in whatever order,
  return the same keys. (The names of a table are lower-case: every method that stores a
  name lower-cases it first.)
\<close>

theorem keys_sorted_each_name_once:
  "sorted (fst (Headers_keys h)) \<and> distinct (fst (Headers_keys h)) \<and>
   set (fst (Headers_keys h)) = set (usp_keys h) \<and>
   (mset h' = mset h \<longrightarrow> fst (Headers_keys h') = fst (Headers_keys h))"
proof -
  have keys: "fst (Headers_keys t) = foldl Set_add [] (map fst (sort_key fst t))" for t
    by (simp add: Headers_keys_def Set_keys_def usp_keys_def usp_sort_def Let_def)
  have s: "sorted (fst (Headers_keys t))" for t
    unfolding keys by (rule sorted_Set_add) (simp add: sorted_sort_key)
  have d: "distinct (fst (Headers_keys t))" for t
    unfolding keys by (rule distinct_Set_add) simp
  have e: "set (fst (Headers_keys t)) = set (usp_keys t)" for t
    unfolding keys by (simp add: set_Set_add usp_keys_def)
  have p: "fst (Headers_keys h') = fst (Headers_keys h)" if "mset h' = mset h"
  proof -
    from that have "set h' = set h" by (rule mset_eq_setD)
    then have "set (fst (Headers_keys h')) = set (fst (Headers_keys h))"
      by (simp add: e usp_keys_def)
    then show ?thesis
      using s d by (blast intro: sorted_distinct_set_unique)
  qed
  from s d e p show ?thesis by blast
qed

theorem keys_sorted_each_name_once_witness:
  "mset [(js ''b'', js ''3''), (js ''b'', js ''1''), (js ''a'', js ''2'')]
     = mset [(js ''b'', js ''1''), (js ''a'', js ''2''), (js ''b'', js ''3'')] \<and>
   fst (Headers_keys [(js ''b'', js ''1''), (js ''a'', js ''2''), (js ''b'', js ''3'')]) = [js ''a'', js ''b''] \<and>
   fst (Headers_keys [(js ''b'', js ''3''), (js ''b'', js ''1''), (js ''a'', js ''2'')]) = [js ''a'', js ''b'']"
proof -
  let ?h = "[(js ''b'', js ''1''), (js ''a'', js ''2''), (js ''b'', js ''3'')]"
  let ?h' = "[(js ''b'', js ''3''), (js ''b'', js ''1''), (js ''a'', js ''2'')]"
  have m: "mset ?h' = mset ?h" by (simp add: js_def)
  have k: "fst (Headers_keys ?h) = [js ''a'', js ''b'']"
    by (simp add: Headers_keys_def Set_keys_def Set_add_def usp_keys_def usp_sort_def js_def)
  from keys_sorted_each_name_once [of ?h ?h'] m have "fst (Headers_keys ?h') = fst (Headers_keys ?h)"
    by blast
  with m k show ?thesis by simp
qed

subsection \<open>Blob: size and parts\<close>

lemma foldl_part_size:
  "foldl (\<lambda>size' buf. size' + part_size buf) a parts = a + sum_list (map part_size parts)"
  by (induction parts arbitrary: a) auto

text \<open>
  C6. The claim: the stored size of every Blob, made by the constructor or by \<open>slice\<close>,
  is the sum of the sizes of its parts. It holds for the constructor. It fails for
  \<open>slice\<close>: the loop never lowers \<open>relativeEnd\<close> after it has taken a chunk, so a
  later part is cut at an end that is still measured from the first part taken. The
  Blob of the buffers 1 2 3 and 4 5 6, sliced from 1 to 5, gets size 4 and parts of sizes
  2 and 3.
\<close>

theorem slice_breaks_size_invariant:
  "blob_size (Blob_new utf8 ps ty) = sum_list (map part_size (blob_parts (Blob_new utf8 ps ty))) \<and>
   slice (Blob_new utf8 [InBuffer [1, 2, 3], InBuffer [4, 5, 6]] None) 1 5 []
     = RawBlob [] 4 [PBuffer [2, 3], PBuffer [4, 5, 6]] \<and>
   sum_list (map part_size [PBuffer [2, 3], PBuffer [4, 5, 6]]) = 5"
proof -
  have ctor: "blob_size (Blob_new utf8 ps ty) = sum_list (map part_size (blob_parts (Blob_new utf8 ps ty)))"
    by (simp add: Blob_new_def foldl_part_size Let_def)
  have sl: "slice (Blob_new utf8 [InBuffer [1, 2, 3], InBuffer [4, 5, 6]] None) 1 5 []
     = RawBlob [] 4 [PBuffer [2, 3], PBuffer [4, 5, 6]]"
    by (simp add: Blob_new_def to_part_def part_size_def type_tag_def
        toLowerCase_def relative_index_def Buffer_slice_def Let_def)
  have sm: "sum_list (map part_size [PBuffer [2, 3], PBuffer [4, 5, 6]]) = 5"
    by (simp add: part_size_def)
  from ctor sl sm show ?thesis by blast
qed

text \<open>
  For a Blob that keeps the size invariant at every level (every Blob the constructor
  makes from buffers, strings and such Blobs does), the slice from 0 to the size keeps the
  invariant and the bytes, and \<open>data()\<close> of the slice and of the Blob agree.
\<close>

lemma part_size_simps:
  "part_size (PBuffer b) = int (length b)"
  "part_size (PBlob p) = blob_size p"
  by (simp_all add: part_size_def)

lemma invariant_nonneg:
  "size_invariant b \<Longrightarrow> 0 \<le> blob_size b"
  "parts_invariant ps \<Longrightarrow> 0 \<le> sum_list (map part_size ps)"
  by (induction b and ps rule: size_invariant_parts_invariant.induct) (auto simp: part_size_simps)

lemma invariant_length:
  "size_invariant b \<Longrightarrow> int (length (concat (stream b))) = blob_size b"
  "parts_invariant ps \<Longrightarrow> int (length (concat (Blob_read ps))) = sum_list (map part_size ps)"
  by (induction b and ps rule: size_invariant_parts_invariant.induct) (auto simp: part_size_simps)

lemma data_loop_fits:
  "offset + length (concat cs) \<le> length data \<Longrightarrow>
   data_loop cs data offset = Inr (take offset data @ concat cs @ drop (offset + length (concat cs)) data)"
proof (induction cs arbitrary: data offset)
  case Nil
  then show ?case by simp
next
  case (Cons c cs)
  let ?d = "take offset data @ c @ drop (offset + length c) data"
  from Cons.prems have fit: "offset + length c \<le> length data" by simp
  then have set: "Uint8Array_set data c offset = Inr ?d"
    by (simp add: Uint8Array_set_def)
  from Cons.prems fit have len: "offset + length c + length (concat cs) \<le> length ?d" by simp
  have tk: "take (offset + length c) ?d = take offset data @ c"
    using fit by simp
  have dr: "drop (offset + length c + length (concat cs)) ?d
      = drop (offset + length c + length (concat cs)) data"
    using fit by (simp add: ac_simps)
  from Cons.IH [OF len] set tk dr show ?case
    by (simp add: add.assoc)
qed

lemma invariant_data: "size_invariant b \<Longrightarrow> Blob_data b = Inr (concat (stream b))"
proof -
  assume inv: "size_invariant b"
  then have n: "0 \<le> blob_size b" and l: "int (length (concat (stream b))) = blob_size b"
    by (simp_all add: invariant_nonneg invariant_length)
  then have l': "length (concat (stream b)) = nat (blob_size b)" by simp
  have "data_loop (stream b) (replicate (nat (blob_size b)) 0) 0 = Inr (concat (stream b))"
    using data_loop_fits [of 0 "stream b" "replicate (nat (blob_size b)) 0"] l' by simp
  with n show ?thesis by (simp add: Blob_data_def)
qed

lemma Buffer_slice_whole: "Buffer_slice b 0 (int (length b)) = b"
  by (simp add: Buffer_slice_def relative_index_def)

lemma no_bytes:
  "parts_invariant ps \<Longrightarrow> sum_list (map part_size ps) \<le> 0 \<Longrightarrow> concat (Blob_read ps) = []"
proof -
  assume inv: "parts_invariant ps" and le: "sum_list (map part_size ps) \<le> 0"
  from inv have "0 \<le> sum_list (map part_size ps)" by (rule invariant_nonneg)
  with le have "sum_list (map part_size ps) = 0" by linarith
  with invariant_length(2) [OF inv] have "int (length (concat (Blob_read ps))) = 0"
    by (simp only:)
  then have "length (concat (Blob_read ps)) = 0" by (simp only: of_nat_eq_0_iff)
  then show ?thesis by (simp only: length_0_conv)
qed

lemma slice_whole:
  "size_invariant b \<Longrightarrow>
     size_invariant (slice b 0 (blob_size b) t) \<and> blob_size (slice b 0 (blob_size b) t) = blob_size b \<and>
     concat (stream (slice b 0 (blob_size b) t)) = concat (stream b)"
  "parts_invariant ps \<Longrightarrow> sum_list (map part_size ps) \<le> relativeEnd \<Longrightarrow>
     added + sum_list (map part_size ps) \<le> span \<Longrightarrow>
     \<exists>ps'. slice_loop ps 0 relativeEnd span added blobParts = blobParts @ ps' \<and> parts_invariant ps' \<and>
       sum_list (map part_size ps') = sum_list (map part_size ps) \<and>
       concat (Blob_read ps') = concat (Blob_read ps)"
proof (induction b and ps arbitrary: t and relativeEnd span added blobParts
    rule: size_invariant_parts_invariant.induct)
  case (1 ty size' parts)
  from "1.prems" have sz: "size' = sum_list (map part_size parts)" and inv: "parts_invariant parts"
    by simp_all
  from inv have nn: "0 \<le> sum_list (map part_size parts)" by (rule invariant_nonneg)
  from "1.IH" [OF inv, of size' 0 size' "[]"] sz
  obtain ps' where ps': "slice_loop parts 0 size' size' 0 [] = ps'" "parts_invariant ps'"
    "sum_list (map part_size ps') = sum_list (map part_size parts)"
    "concat (Blob_read ps') = concat (Blob_read parts)"
    by auto
  from sz nn have "slice (RawBlob ty size' parts) 0 size' t = RawBlob (type_tag (Some t)) size' ps'"
    using ps'(1) by (simp add: relative_index_def Let_def)
  with ps' sz show ?case by simp
next
  case 2
  then show ?case by simp
next
  case (3 b parts)
  from "3.prems" have inv: "parts_invariant parts" by simp
  from inv have nn: "0 \<le> sum_list (map part_size parts)" by (rule invariant_nonneg)
  from "3.prems" nn have le: "int (length b) \<le> relativeEnd"
    by (simp add: part_size_simps)
  then have chunk: "Buffer_slice b 0 (min (int (length b)) relativeEnd) = b"
    by (simp add: min_absorb1 Buffer_slice_whole)
  show ?case
  proof (cases "span \<le> added + int (length b)")
    case True
    with "3.prems" nn have "sum_list (map part_size parts) \<le> 0" by (simp add: part_size_simps)
    with inv have "concat (Blob_read parts) = []" and "sum_list (map part_size parts) = 0"
      using nn by (simp_all add: no_bytes)
    with True chunk show ?thesis
      by (auto simp: Let_def part_size_simps intro!: exI [of _ "[PBuffer b]"])
  next
    case False
    from "3.prems" nn have "sum_list (map part_size parts) \<le> relativeEnd"
      and "added + int (length b) + sum_list (map part_size parts) \<le> span"
      by (simp_all add: part_size_simps)
    from "3.IH" [OF inv this, of "blobParts @ [PBuffer b]"]
    obtain ps' where ps': "slice_loop parts 0 relativeEnd span (added + int (length b)) (blobParts @ [PBuffer b])
        = (blobParts @ [PBuffer b]) @ ps'" "parts_invariant ps'"
      "sum_list (map part_size ps') = sum_list (map part_size parts)"
      "concat (Blob_read ps') = concat (Blob_read parts)"
      by auto
    with False chunk show ?thesis
      by (auto simp: Let_def part_size_simps intro!: exI [of _ "PBuffer b # ps'"])
  qed
next
  case (4 p parts)
  from "4.prems" have invp: "size_invariant p" and inv: "parts_invariant parts" by simp_all
  from inv have nn: "0 \<le> sum_list (map part_size parts)" by (rule invariant_nonneg)
  from invp have np: "0 \<le> blob_size p" by (rule invariant_nonneg)
  from "4.prems" nn have le: "blob_size p \<le> relativeEnd"
    by (simp add: part_size_simps)
  define chunk where "chunk = slice p 0 (blob_size p) []"
  from le have m: "min (blob_size p) relativeEnd = blob_size p" by simp
  from "4.IH"(1) [OF invp, of "[]"] have c: "size_invariant chunk" "blob_size chunk = blob_size p"
    "concat (stream chunk) = concat (stream p)"
    by (simp_all add: chunk_def)
  show ?case
  proof (cases "span \<le> added + blob_size p")
    case True
    with "4.prems" nn have "sum_list (map part_size parts) \<le> 0" by (simp add: part_size_simps)
    with inv have "concat (Blob_read parts) = []" and "sum_list (map part_size parts) = 0"
      using nn by (simp_all add: no_bytes)
    with True c m show ?thesis
      by (auto simp: Let_def part_size_simps chunk_def intro!: exI [of _ "[PBlob chunk]"])
  next
    case False
    from "4.prems" nn np have "sum_list (map part_size parts) \<le> relativeEnd"
      and "added + blob_size p + sum_list (map part_size parts) \<le> span"
      by (simp_all add: part_size_simps)
    from "4.IH"(2) [OF inv this, of "blobParts @ [PBlob chunk]"]
    obtain ps' where ps': "slice_loop parts 0 relativeEnd span (added + blob_size p) (blobParts @ [PBlob chunk])
        = (blobParts @ [PBlob chunk]) @ ps'" "parts_invariant ps'"
      "sum_list (map part_size ps') = sum_list (map part_size parts)"
      "concat (Blob_read ps') = concat (Blob_read parts)"
      by auto
    with False c m show ?thesis
      by (auto simp: Let_def part_size_simps chunk_def intro!: exI [of _ "PBlob chunk # ps'"])
  qed
qed

lemma slice_whole_data:
  "size_invariant p \<Longrightarrow> Blob_data (slice p 0 (blob_size p) t) = Blob_data p"
  using slice_whole(1) [of p t] by (simp add: invariant_data)

lemma to_part_invariant:
  "list_all (\<lambda>p. case p of InBlob b \<Rightarrow> size_invariant b | _ \<Rightarrow> True) ps \<Longrightarrow>
   parts_invariant (map (to_part utf8) ps)"
proof (induction ps)
  case Nil
  then show ?case by simp
next
  case (Cons p ps)
  then show ?case by (cases p) (simp_all add: to_part_def)
qed

lemma Blob_new_invariant:
  "list_all (\<lambda>p. case p of InBlob b \<Rightarrow> size_invariant b | _ \<Rightarrow> True) ps \<Longrightarrow>
   size_invariant (Blob_new utf8 ps ty)"
  by (simp add: Blob_new_def Let_def foldl_part_size to_part_invariant)

text \<open>
  C10. The claim: \<open>p.slice(0, p.size).data()\<close> and \<open>p.data()\<close> give the same bytes
  for every Blob \<open>p\<close>. It holds for the Blobs that keep the size invariant
  (\<open>slice_whole_data\<close>), but \<open>slice\<close> also makes Blobs that break it. A Blob that
  \<open>slice\<close> made with a size below its parts (here by a start behind the end: the
  negative \<open>relativeEnd\<close> is counted from the end of the buffer) is a \<open>p\<close> where the
  two differ: its \<open>data()\<close> raises the RangeError of the typed array, and the
  \<open>data()\<close> of its slice from 0 to its size returns the empty buffer.
\<close>

theorem slice_whole_data_differs:
  "slice (Blob_new utf8 [InBuffer [0], InBuffer [1, 2, 3, 4, 5, 6, 7, 8, 9, 10]] None) 2 0 []
     = RawBlob [] 0 [PBuffer [2, 3, 4, 5, 6, 7, 8, 9]] \<and>
   Blob_data (RawBlob [] 0 [PBuffer [2, 3, 4, 5, 6, 7, 8, 9]]) = Inl ERR_OUT_OF_RANGE \<and>
   Blob_data (slice (RawBlob [] 0 [PBuffer [2, 3, 4, 5, 6, 7, 8, 9]]) 0 0 []) = Inr []"
  by (simp add: Blob_new_def to_part_def part_size_def type_tag_def
      toLowerCase_def relative_index_def Buffer_slice_def Let_def Blob_data_def Uint8Array_set_def)

subsection \<open>The constructor of Request writes to the shared defaults\<close>

text \<open>
  C5. After a Request is constructed with options \<open>opts\<close> on the pristine defaults,
  the defaults object holds every property of \<open>opts\<close>, and a second Request constructed
  with \<open>{}\<close> has the method and the body of \<open>opts\<close> and reads its timeout, follow
  and compressData in its options. So what a construction returns depends on the
  constructions before it: after one with method POST and after one with \<open>{}\<close>, the
  same construction gives different results.
\<close>

theorem defaults_shared_between_constructions:
  assumes "Request_new defaultRequestOptions u1 opts = (s1, r1)"
    and "Request_new s1 u2 no_options = (s2, Inr r2)"
  shows "s1 = Object_assign defaultRequestOptions opts \<and> s2 = s1 \<and>
     (\<forall>m. method' opts = Some m \<longrightarrow> req_method r2 = m) \<and>
     (\<forall>b. body opts = Some b \<longrightarrow> req_body r2 = b) \<and>
     (\<forall>t. timeout opts = Some t \<longrightarrow> timeout s2 = Some t) \<and>
     (\<forall>f. follow opts = Some f \<longrightarrow> follow s2 = Some f) \<and>
     (\<forall>c. compressData opts = Some c \<longrightarrow> compressData s2 = Some c) \<and>
     Request_new (fst (Request_new defaultRequestOptions u1 (no_options\<lparr>method' := Some POST\<rparr>))) u2 no_options
       \<noteq> Request_new (fst (Request_new defaultRequestOptions u1 no_options)) u2 no_options"
proof -
  have s1: "s1 = Object_assign defaultRequestOptions opts"
    using assms(1) by (auto simp: Request_new_def Let_def)
  have same: "Object_assign s no_options = s" for s
    by (simp add: Object_assign_def no_options_def assigned_def)
  have s2: "s2 = s1"
    using assms(2) by (auto simp: Request_new_def Let_def same)
  have r2: "req_method r2 = (case method' s1 of None \<Rightarrow> GET | Some m \<Rightarrow> m)"
    "req_body r2 = (case body s1 of None \<Rightarrow> Undefined | Some b \<Rightarrow> b)"
    using assms(2) by (auto simp: Request_new_def Let_def same split: sum.splits)
  have diff: "Request_new (fst (Request_new defaultRequestOptions u1 (no_options\<lparr>method' := Some POST\<rparr>))) u2 no_options
       \<noteq> Request_new (fst (Request_new defaultRequestOptions u1 no_options)) u2 no_options"
    by (simp add: Request_new_def Let_def Object_assign_def no_options_def assigned_def
        defaultRequestOptions_def)
  show ?thesis
    using s1 s2 r2 diff by (simp add: Object_assign_def assigned_def)
qed

theorem defaults_shared_between_constructions_witness:
  "Request_new defaultRequestOptions \<lparr>href = js ''http://a/'', searchParams = []\<rparr>
      (no_options\<lparr>method' := Some POST, body := Some (Plain (JStr (js ''x''))), timeout := Some 50,
                  follow := Some (FollowCount 3), compressData := Some True\<rparr>)
     = (\<lparr>headers = Some (InitRecord []), method' = Some POST, query = Some [],
         body = Some (Plain (JStr (js ''x''))), timeout = Some 50, follow = Some (FollowCount 3),
         compressData = Some True, agent = None, signal = None\<rparr>,
        Inr \<lparr>url = \<lparr>href = js ''http://a/'', searchParams = []\<rparr>, redirects = 0, req_method = POST,
             req_body = Plain (JStr (js ''x'')), req_signal = None, req_headers = []\<rparr>) \<and>
   Request_new \<lparr>headers = Some (InitRecord []), method' = Some POST, query = Some [],
         body = Some (Plain (JStr (js ''x''))), timeout = Some 50, follow = Some (FollowCount 3),
         compressData = Some True, agent = None, signal = None\<rparr>
       \<lparr>href = js ''http://b/'', searchParams = []\<rparr> no_options
     = (\<lparr>headers = Some (InitRecord []), method' = Some POST, query = Some [],
         body = Some (Plain (JStr (js ''x''))), timeout = Some 50, follow = Some (FollowCount 3),
         compressData = Some True, agent = None, signal = None\<rparr>,
        Inr \<lparr>url = \<lparr>href = js ''http://b/'', searchParams = []\<rparr>, redirects = 0, req_method = POST,
             req_body = Plain (JStr (js ''x'')), req_signal = None, req_headers = []\<rparr>)"
proof -
  let ?opts = "no_options\<lparr>method' := Some POST, body := Some (Plain (JStr (js ''x''))), timeout := Some 50,
                  follow := Some (FollowCount 3), compressData := Some True\<rparr>"
  let ?s = "\<lparr>headers = Some (InitRecord []), method' = Some POST, query = Some [],
         body = Some (Plain (JStr (js ''x''))), timeout = Some 50, follow = Some (FollowCount 3),
         compressData = Some True, agent = None, signal = None\<rparr>"
  let ?u1 = "\<lparr>href = js ''http://a/'', searchParams = []\<rparr>"
  let ?u2 = "\<lparr>href = js ''http://b/'', searchParams = []\<rparr>"
  have a: "Request_new defaultRequestOptions ?u1 ?opts
     = (?s, Inr \<lparr>url = ?u1, redirects = 0, req_method = POST,
             req_body = Plain (JStr (js ''x'')), req_signal = None, req_headers = []\<rparr>)"
    by (simp add: Request_new_def Let_def Object_assign_def no_options_def assigned_def
        defaultRequestOptions_def Headers_new_def init_pairs_def)
  obtain s2 r2 where b: "Request_new ?s ?u2 no_options = (s2, Inr r2)"
    by (simp add: Request_new_def Let_def Object_assign_def no_options_def assigned_def
        Headers_new_def init_pairs_def)
  from defaults_shared_between_constructions [OF a b]
  have "s2 = ?s" "req_method r2 = POST" "req_body r2 = Plain (JStr (js ''x''))"
    by (simp_all add: no_options_def)
  moreover from b have "url r2 = ?u2" "redirects r2 = 0" "req_signal r2 = None" "req_headers r2 = []"
    by (auto simp: Request_new_def Let_def Object_assign_def no_options_def assigned_def
        Headers_new_def init_pairs_def)
  ultimately have "Request_new ?s ?u2 no_options
     = (?s, Inr \<lparr>url = ?u2, redirects = 0, req_method = POST,
             req_body = Plain (JStr (js ''x'')), req_signal = None, req_headers = []\<rparr>)"
    using b by simp
  with a show ?thesis by simp
qed

subsection \<open>The body that is written\<close>





subsection \<open>The response buffer\<close>

lemma foldl_Response_chunk:
  "buf (foldl Response_chunk r cs) = buf r @ concat cs \<and> message (foldl Response_chunk r cs) = message r
   \<and> request (foldl Response_chunk r cs) = request r"
  by (induction cs arbitrary: r) (auto simp: Response_chunk_def)

lemma chunks_pipe_decoder: "chunks (pipe_decoder options resp) = chunks resp"
  by (simp add: pipe_decoder_def Let_def)

lemma settle_raw:
  "settle req resp = Resolved r \<Longrightarrow> buf r = concat (chunks resp) \<and> message r = resp"
  by (auto simp: settle_def Response_new_def foldl_Response_chunk)

lemma exec_response_settled:
  assumes "exec_response resolve options req resp = Settle options' (Resolved r)"
  shows "buf r = concat (chunks resp) \<and> message r = pipe_decoder options resp \<and> options' = options"
  using assms
  by (auto simp: exec_response_def Let_def chunks_pipe_decoder
      split: sum.splits option.splits if_splits prod.splits dest!: settle_raw)

lemma exec_Nil:
  "exec UA resolve options req [] = (st, sents, out) \<Longrightarrow> out \<noteq> Resolved r"
  by (subst (asm) exec.simps) (auto simp del: exec.simps split: sum.splits prod.splits)

lemma exec_Cons:
  "exec UA resolve options req (resp # rest) = (st, sents, Resolved r) \<Longrightarrow>
   (\<exists>req2 sent. exec_response resolve options req2 resp = Settle st (Resolved r) \<and> sents = [sent]) \<or>
   (\<exists>req2 sent options' next sents'. exec_response resolve options req2 resp = Redirect options' next \<and>
       exec UA resolve options' next rest = (st, sents', Resolved r) \<and> sents = sent # sents')"
  by (subst (asm) exec.simps) (auto simp del: exec.simps split: sum.splits prod.splits list.splits Step.splits Outcome.splits)

text \<open>
  C3. The claim: with compressData on and a content-encoding of gzip or deflate, the
  response buffer holds the decompressor's output. But \<open>exec\<close> pipes the message into
  a stream nobody reads, and feeds \<open>_chunk\<close> from the message's own data events:
  whenever \<open>exec\<close> resolves, the buffer is the concatenation of the chunks of the
  message that answered the last request, as the transport delivered them, whatever the
  options and the content-encoding. The message of the Response holds the pipe.
\<close>

theorem response_buffer_holds_raw_bytes:
  assumes "exec UA resolve options req msgs = (st, sents, Resolved r)"
  shows "sents \<noteq> [] \<and> length sents \<le> length msgs \<and>
         buf r = concat (chunks (msgs ! (length sents - 1))) \<and>
         message r = pipe_decoder st (msgs ! (length sents - 1))"
  using assms
proof (induction msgs arbitrary: options req sents)
  case Nil
  then show ?case using exec_Nil by blast
next
  case (Cons resp rest)
  from exec_Cons [OF Cons.prems]
  show ?case
  proof (elim disjE exE conjE)
    fix req2 sent
    assume "exec_response resolve options req2 resp = Settle st (Resolved r)" "sents = [sent]"
    then show ?thesis using exec_response_settled by fastforce
  next
    fix req2 sent options' "next" sents'
    assume a: "exec UA resolve options' next rest = (st, sents', Resolved r)" "sents = sent # sents'"
    from Cons.IH [OF a(1)] a(2) show ?thesis
      by (cases sents') auto
  qed
qed

text \<open>
  A gzip stream of the two bytes "hi", delivered in two chunks: the buffer is the 22 bytes
  of the stream.
\<close>

theorem response_buffer_holds_raw_bytes_witness:
  "exec (js ''UA'') (\<lambda>location base. None) (Request_compress defaultRequestOptions)
     \<lparr>url = \<lparr>href = js ''http://h/'', searchParams = []\<rparr>, redirects = 0, req_method = GET,
       req_body = Plain JNull, req_signal = None, req_headers = []\<rparr>
     [\<lparr>statusCode = Some 200, msg_headers = [(js ''content-encoding'', js ''gzip'')],
        rawHeaders = [js ''Content-Encoding'', js ''gzip''],
        chunks = [[0x1F, 0x8B, 0x08, 0x00, 0x00, 0x00, 0x00, 0x00, 0x02, 0x03, 0xCB, 0xC8],
                  [0x04, 0x00, 0xAC, 0x2A, 0x93, 0xD8, 0x02, 0x00, 0x00, 0x00]],
        pipes = []\<rparr>]
   = (Request_compress defaultRequestOptions,
      [\<lparr>sender = \<lparr>url = \<lparr>href = js ''http://h/'', searchParams = []\<rparr>, redirects = 0, req_method = GET,
                   req_body = Plain JNull, req_signal = None,
                   req_headers = [(js ''user-agent'', js ''UA'')]\<rparr>,
        sent_headers = [(js ''user-agent'', [js ''UA''])], sent_body = Inr None\<rparr>],
      Resolved
        \<lparr>request = \<lparr>url = \<lparr>href = js ''http://h/'', searchParams = []\<rparr>, redirects = 0, req_method = GET,
                   req_body = Plain JNull, req_signal = None,
                   req_headers = [(js ''user-agent'', js ''UA'')]\<rparr>,
         message = \<lparr>statusCode = Some 200, msg_headers = [(js ''content-encoding'', js ''gzip'')],
                     rawHeaders = [js ''Content-Encoding'', js ''gzip''],
                     chunks = [[0x1F, 0x8B, 0x08, 0x00, 0x00, 0x00, 0x00, 0x00, 0x02, 0x03, 0xCB, 0xC8],
                               [0x04, 0x00, 0xAC, 0x2A, 0x93, 0xD8, 0x02, 0x00, 0x00, 0x00]],
                     pipes = [Gunzip]\<rparr>,
         buf = [0x1F, 0x8B, 0x08, 0x00, 0x00, 0x00, 0x00, 0x00, 0x02, 0x03, 0xCB, 0xC8,
                0x04, 0x00, 0xAC, 0x2A, 0x93, 0xD8, 0x02, 0x00, 0x00, 0x00]\<rparr>) \<and>
   concat [[0x1F, 0x8B, 0x08, 0x00, 0x00, 0x00, 0x00, 0x00, 0x02, 0x03, 0xCB, 0xC8],
           [0x04, 0x00, 0xAC, 0x2A, 0x93, 0xD8, 0x02, 0x00, 0x00, 0x00 :: byte]]
     = [0x1F, 0x8B, 0x08, 0x00, 0x00, 0x00, 0x00, 0x00, 0x02, 0x03, 0xCB, 0xC8,
        0x04, 0x00, 0xAC, 0x2A, 0x93, 0xD8, 0x02, 0x00, 0x00, 0x00]"
proof -
  have run: "exec (js ''UA'') (\<lambda>location base. None) (Request_compress defaultRequestOptions)
     \<lparr>url = \<lparr>href = js ''http://h/'', searchParams = []\<rparr>, redirects = 0, req_method = GET,
       req_body = Plain JNull, req_signal = None, req_headers = []\<rparr>
     [\<lparr>statusCode = Some 200, msg_headers = [(js ''content-encoding'', js ''gzip'')],
        rawHeaders = [js ''Content-Encoding'', js ''gzip''],
        chunks = [[0x1F, 0x8B, 0x08, 0x00, 0x00, 0x00, 0x00, 0x00, 0x02, 0x03, 0xCB, 0xC8],
                  [0x04, 0x00, 0xAC, 0x2A, 0x93, 0xD8, 0x02, 0x00, 0x00, 0x00]],
        pipes = []\<rparr>]
   = (Request_compress defaultRequestOptions,
      [\<lparr>sender = \<lparr>url = \<lparr>href = js ''http://h/'', searchParams = []\<rparr>, redirects = 0, req_method = GET,
                   req_body = Plain JNull, req_signal = None,
                   req_headers = [(js ''user-agent'', js ''UA'')]\<rparr>,
        sent_headers = [(js ''user-agent'', [js ''UA''])], sent_body = Inr None\<rparr>],
      Resolved
        \<lparr>request = \<lparr>url = \<lparr>href = js ''http://h/'', searchParams = []\<rparr>, redirects = 0, req_method = GET,
                   req_body = Plain JNull, req_signal = None,
                   req_headers = [(js ''user-agent'', js ''UA'')]\<rparr>,
         message = \<lparr>statusCode = Some 200, msg_headers = [(js ''content-encoding'', js ''gzip'')],
                     rawHeaders = [js ''Content-Encoding'', js ''gzip''],
                     chunks = [[0x1F, 0x8B, 0x08, 0x00, 0x00, 0x00, 0x00, 0x00, 0x02, 0x03, 0xCB, 0xC8],
                               [0x04, 0x00, 0xAC, 0x2A, 0x93, 0xD8, 0x02, 0x00, 0x00, 0x00]],
                     pipes = [Gunzip]\<rparr>,
         buf = [0x1F, 0x8B, 0x08, 0x00, 0x00, 0x00, 0x00, 0x00, 0x02, 0x03, 0xCB, 0xC8,
                0x04, 0x00, 0xAC, 0x2A, 0x93, 0xD8, 0x02, 0x00, 0x00, 0x00]\<rparr>)"
    by code_simp
  from response_buffer_holds_raw_bytes [OF run] run show ?thesis
    by simp
qed

subsection \<open>Redirects\<close>

lemma exec_prepare_redirects: "exec_prepare UA req = Inr req1 \<Longrightarrow> redirects req1 = redirects req"
  by (auto simp: exec_prepare_def split: sum.splits if_splits)

lemma exec_send_sender:
  "exec_send req = Inr (req2, sent) \<Longrightarrow> redirects req2 = redirects req \<and> sender sent = req2"
  by (auto simp: exec_send_def Let_def split: sum.splits)

lemma exec_response_redirect:
  "exec_response resolve options req resp = Redirect options' next' \<Longrightarrow> redirects next' = redirects req"
  by (auto simp: exec_response_def Let_def split: sum.splits option.splits if_splits prod.splits)

lemma issued_redirects:
  "exec_prepare UA req = Inr req1 \<Longrightarrow> exec_send req1 = Inr (req2, sent) \<Longrightarrow>
   redirects (sender sent) = redirects req \<and> redirects req2 = redirects req"
  using exec_prepare_redirects exec_send_sender by metis

lemma exec_unfold:
  "exec UA resolve options req msgs = (st, sents, out) \<Longrightarrow>
   sents = [] \<or>
   (\<exists>req1 req2 sent. exec_prepare UA req = Inr req1 \<and> exec_send req1 = Inr (req2, sent) \<and>
      (sents = [sent] \<or>
       (\<exists>resp rest options' next' st' sents' out'. msgs = resp # rest \<and>
          exec_response resolve options req2 resp = Redirect options' next' \<and>
          exec UA resolve options' next' rest = (st', sents', out') \<and> sents = sent # sents')))"
  by (subst (asm) exec.simps)
    (auto simp del: exec.simps split: sum.splits prod.splits list.splits Step.splits)

lemma exec_counter:
  "exec UA resolve options req msgs = (st, sents, out) \<Longrightarrow>
   list_all (\<lambda>s. redirects (sender s) = redirects req) sents"
proof (induction msgs arbitrary: options req st sents out)
  case Nil
  from exec_unfold [OF Nil.prems] show ?case
    by (auto dest: issued_redirects)
next
  case (Cons resp rest)
  from exec_unfold [OF Cons.prems] show ?case
  proof (elim disjE exE conjE)
    assume "sents = []"
    then show ?thesis by simp
  next
    fix req1 req2 sent
    assume "exec_prepare UA req = Inr req1" "exec_send req1 = Inr (req2, sent)" "sents = [sent]"
    then show ?thesis by (auto dest: issued_redirects)
  next
    fix req1 req2 sent resp' rest' options' next' st' sents' out'
    assume a: "exec_prepare UA req = Inr req1" "exec_send req1 = Inr (req2, sent)"
      "resp # rest = resp' # rest'"
      "exec_response resolve options req2 resp' = Redirect options' next'"
      "exec UA resolve options' next' rest' = (st', sents', out')" "sents = sent # sents'"
    from a(1,2) have h: "redirects (sender sent) = redirects req" "redirects req2 = redirects req"
      by (auto dest: issued_redirects)
    from a(4) h have n: "redirects next' = redirects req"
      by (auto dest: exec_response_redirect)
    from a(3,5) have "list_all (\<lambda>s. redirects (sender s) = redirects next') sents'"
      using Cons.IH by auto
    with n h a(6) show ?thesis by simp
  qed
qed

text \<open>
  C1. The claim: with a cap of N, at most N further requests are issued, the counter
  goes up at every hop, and the redirecting response is returned once the counter equals
  the cap. The Request made for a hop gets \<open>req.redirects = this.redirects\<close>, without
  an increment: every request that \<open>exec\<close> issues carries the counter of the first
  one. With a cap of 1, three responses that each carry a Location and then a response
  with status 200, all three redirects are followed: four requests are issued, each with
  the counter 0, and the promise resolves with the fourth response, not with the second.
\<close>

theorem redirect_counter_never_incremented:
  "list_all (\<lambda>s. redirects (sender s) = redirects req) (fst (snd (exec UA resolve options req msgs))) \<and>
   fst (snd (exec (js ''UA'') (\<lambda>location base. Some \<lparr>href = location, searchParams = []\<rparr>)
        (Request_follow defaultRequestOptions (Some 1))
        \<lparr>url = \<lparr>href = js ''http://h/'', searchParams = []\<rparr>, redirects = 0, req_method = GET,
          req_body = Plain JNull, req_signal = None, req_headers = []\<rparr>
        [\<lparr>statusCode = Some 301, msg_headers = [(js ''location'', js ''/a'')],
           rawHeaders = [js ''Location'', js ''/a''], chunks = [], pipes = []\<rparr>,
         \<lparr>statusCode = Some 302, msg_headers = [(js ''location'', js ''/b'')],
           rawHeaders = [js ''Location'', js ''/b''], chunks = [], pipes = []\<rparr>,
         \<lparr>statusCode = Some 303, msg_headers = [(js ''location'', js ''/c'')],
           rawHeaders = [js ''Location'', js ''/c''], chunks = [], pipes = []\<rparr>,
         \<lparr>statusCode = Some 200, msg_headers = [], rawHeaders = [], chunks = [[0x6F, 0x6B]],
           pipes = []\<rparr>]))
   = map (\<lambda>u. \<lparr>sender = \<lparr>url = \<lparr>href = u, searchParams = []\<rparr>, redirects = 0, req_method = GET,
                    req_body = Plain JNull, req_signal = None,
                    req_headers = [(js ''user-agent'', js ''UA'')]\<rparr>,
                  sent_headers = [(js ''user-agent'', [js ''UA''])], sent_body = Inr None\<rparr>)
       [js ''http://h/'', js ''/a'', js ''/b'', js ''/c''] \<and>
   snd (snd (exec (js ''UA'') (\<lambda>location base. Some \<lparr>href = location, searchParams = []\<rparr>)
        (Request_follow defaultRequestOptions (Some 1))
        \<lparr>url = \<lparr>href = js ''http://h/'', searchParams = []\<rparr>, redirects = 0, req_method = GET,
          req_body = Plain JNull, req_signal = None, req_headers = []\<rparr>
        [\<lparr>statusCode = Some 301, msg_headers = [(js ''location'', js ''/a'')],
           rawHeaders = [js ''Location'', js ''/a''], chunks = [], pipes = []\<rparr>,
         \<lparr>statusCode = Some 302, msg_headers = [(js ''location'', js ''/b'')],
           rawHeaders = [js ''Location'', js ''/b''], chunks = [], pipes = []\<rparr>,
         \<lparr>statusCode = Some 303, msg_headers = [(js ''location'', js ''/c'')],
           rawHeaders = [js ''Location'', js ''/c''], chunks = [], pipes = []\<rparr>,
         \<lparr>statusCode = Some 200, msg_headers = [], rawHeaders = [], chunks = [[0x6F, 0x6B]],
           pipes = []\<rparr>]))
   = Resolved
       \<lparr>request = \<lparr>url = \<lparr>href = js ''/c'', searchParams = []\<rparr>, redirects = 0, req_method = GET,
                    req_body = Plain JNull, req_signal = None,
                    req_headers = [(js ''user-agent'', js ''UA'')]\<rparr>,
        message = \<lparr>statusCode = Some 200, msg_headers = [], rawHeaders = [], chunks = [[0x6F, 0x6B]],
                    pipes = []\<rparr>,
        buf = [0x6F, 0x6B]\<rparr>"
proof -
  have counter: "list_all (\<lambda>s. redirects (sender s) = redirects req) (fst (snd (exec UA resolve options req msgs)))"
    using exec_counter [of UA resolve options req msgs] by (cases "exec UA resolve options req msgs") auto
  have issued: "fst (snd (exec (js ''UA'') (\<lambda>location base. Some \<lparr>href = location, searchParams = []\<rparr>)
        (Request_follow defaultRequestOptions (Some 1))
        \<lparr>url = \<lparr>href = js ''http://h/'', searchParams = []\<rparr>, redirects = 0, req_method = GET,
          req_body = Plain JNull, req_signal = None, req_headers = []\<rparr>
        [\<lparr>statusCode = Some 301, msg_headers = [(js ''location'', js ''/a'')],
           rawHeaders = [js ''Location'', js ''/a''], chunks = [], pipes = []\<rparr>,
         \<lparr>statusCode = Some 302, msg_headers = [(js ''location'', js ''/b'')],
           rawHeaders = [js ''Location'', js ''/b''], chunks = [], pipes = []\<rparr>,
         \<lparr>statusCode = Some 303, msg_headers = [(js ''location'', js ''/c'')],
           rawHeaders = [js ''Location'', js ''/c''], chunks = [], pipes = []\<rparr>,
         \<lparr>statusCode = Some 200, msg_headers = [], rawHeaders = [], chunks = [[0x6F, 0x6B]],
           pipes = []\<rparr>]))
   = map (\<lambda>u. \<lparr>sender = \<lparr>url = \<lparr>href = u, searchParams = []\<rparr>, redirects = 0, req_method = GET,
                    req_body = Plain JNull, req_signal = None,
                    req_headers = [(js ''user-agent'', js ''UA'')]\<rparr>,
                  sent_headers = [(js ''user-agent'', [js ''UA''])], sent_body = Inr None\<rparr>)
       [js ''http://h/'', js ''/a'', js ''/b'', js ''/c'']"
    by code_simp
  have outcome: "snd (snd (exec (js ''UA'') (\<lambda>location base. Some \<lparr>href = location, searchParams = []\<rparr>)
        (Request_follow defaultRequestOptions (Some 1))
        \<lparr>url = \<lparr>href = js ''http://h/'', searchParams = []\<rparr>, redirects = 0, req_method = GET,
          req_body = Plain JNull, req_signal = None, req_headers = []\<rparr>
        [\<lparr>statusCode = Some 301, msg_headers = [(js ''location'', js ''/a'')],
           rawHeaders = [js ''Location'', js ''/a''], chunks = [], pipes = []\<rparr>,
         \<lparr>statusCode = Some 302, msg_headers = [(js ''location'', js ''/b'')],
           rawHeaders = [js ''Location'', js ''/b''], chunks = [], pipes = []\<rparr>,
         \<lparr>statusCode = Some 303, msg_headers = [(js ''location'', js ''/c'')],
           rawHeaders = [js ''Location'', js ''/c''], chunks = [], pipes = []\<rparr>,
         \<lparr>statusCode = Some 200, msg_headers = [], rawHeaders = [], chunks = [[0x6F, 0x6B]],
           pipes = []\<rparr>]))
   = Resolved
       \<lparr>request = \<lparr>url = \<lparr>href = js ''/c'', searchParams = []\<rparr>, redirects = 0, req_method = GET,
                    req_body = Plain JNull, req_signal = None,
                    req_headers = [(js ''user-agent'', js ''UA'')]\<rparr>,
        message = \<lparr>statusCode = Some 200, msg_headers = [], rawHeaders = [], chunks = [[0x6F, 0x6B]],
                    pipes = []\<rparr>,
        buf = [0x6F, 0x6B]\<rparr>"
    by code_simp
  from counter issued outcome show ?thesis by (intro conjI)
qed


end
